theory Spec2Isabelle
  imports Main
begin

section \<open>Values, errors and strings\<close>

text \<open>
  The program of \<^verbatim>\<open>autoStattic.py\<close> reads JSON from the WordPress REST API. A decoded JSON
  value is a \<open>json\<close>; an object keeps its keys in the order the server sent them, as a
  Python dict does, so it is an association list. JSON numbers are integers here: ids,
  counts and page numbers are all the program reads as numbers.
\<close>

datatype json =
    JNull
  | JBool bool
  | JInt int
  | JStr string
  | JList "json list"
  | JObj "(string \<times> json) list"

text \<open>
  The exceptions the program can meet. \<open>RequestFailed\<close> is what \<^verbatim>\<open>requests.get\<close> itself raises
  (no connection, timeout). \<open>Unmodelled\<close> marks a field whose type is outside the data model
  of the specification (a term id that is not an integer, a name that is not a string):
  the model stops there and no theorem below speaks about such a run.
\<close>

datatype error =
    HTTPError
  | JSONDecodeError
  | RequestFailed
  | KeyError
  | TypeError
  | AttributeError
  | Unmodelled

text \<open>Python's truth value of a decoded JSON value (\<^verbatim>\<open>if x:\<close>, \<^verbatim>\<open>not x\<close>).\<close>

fun truthy :: "json \<Rightarrow> bool" where
  "truthy JNull = False"
| "truthy (JBool b) = b"
| "truthy (JInt n) = (n \<noteq> 0)"
| "truthy (JStr s) = (s \<noteq> [])"
| "truthy (JList xs) = (xs \<noteq> [])"
| "truthy (JObj kvs) = (kvs \<noteq> [])"

text \<open>\<^verbatim>\<open>str(n)\<close> for an integer: decimal digits, with a minus sign for a negative number.\<close>

fun str_nat :: "nat \<Rightarrow> string" where
  "str_nat n = (if n < 10 then [''0123456789'' ! n]
                else str_nat (n div 10) @ [''0123456789'' ! (n mod 10)])"

declare str_nat.simps [simp del]

definition str_int :: "int \<Rightarrow> string" where
  "str_int i = (if i < 0 then CHR ''-'' # str_nat (nat (- i)) else str_nat (nat i))"

text \<open>
  A string is a list of characters, each a code point below 256. \<^verbatim>\<open>str.strip()\<close> removes
  the characters for which \<^verbatim>\<open>str.isspace\<close> holds from both ends; below code point 256 these
  are 9 to 13, 28 to 32, 133 and 160.
\<close>

definition is_space :: "char \<Rightarrow> bool" where
  "is_space c = (let n = (of_char c :: nat) in
     (9 \<le> n \<and> n \<le> 13) \<or> (28 \<le> n \<and> n \<le> 32) \<or> n = 133 \<or> n = 160)"

definition strip :: "string \<Rightarrow> string" where
  "strip s = rev (dropWhile is_space (rev (dropWhile is_space s)))"

text \<open>\<open>starts_with p s\<close>: the string \<open>s\<close> begins with \<open>p\<close>.\<close>

fun starts_with :: "string \<Rightarrow> string \<Rightarrow> bool" where
  "starts_with [] s = True"
| "starts_with (p # ps) [] = False"
| "starts_with (p # ps) (c # cs) = (p = c \<and> starts_with ps cs)"

text \<open>\<^verbatim>\<open>re.search(pat, s)\<close> for a pattern without metacharacters: \<open>pat\<close> occurs in \<open>s\<close>.\<close>

fun contains :: "string \<Rightarrow> string \<Rightarrow> bool" where
  "contains pat [] = (pat = [])"
| "contains pat (c # cs) = (starts_with pat (c # cs) \<or> contains pat cs)"

section \<open>Dictionaries that keep insertion order\<close>

text \<open>
  A Python dict iterates in insertion order, and assigning to a key that is already there
  keeps the key's place. \<open>dict_set\<close> is \<^verbatim>\<open>d[k] = v\<close>, \<open>dict_update\<close> is \<^verbatim>\<open>d.update(e)\<close>,
  \<open>dict_get\<close> is \<^verbatim>\<open>d.get(k)\<close> and \<open>dict_keys\<close> is \<^verbatim>\<open>list(d.keys())\<close>.
\<close>

fun dict_set :: "('k \<times> 'v) list \<Rightarrow> 'k \<Rightarrow> 'v \<Rightarrow> ('k \<times> 'v) list" where
  "dict_set [] k v = [(k, v)]"
| "dict_set ((k', v') # d) k v = (if k' = k then (k, v) # d else (k', v') # dict_set d k v)"

definition dict_get :: "('k \<times> 'v) list \<Rightarrow> 'k \<Rightarrow> 'v option" where
  "dict_get d k = map_of d k"

definition dict_keys :: "('k \<times> 'v) list \<Rightarrow> 'k list" where
  "dict_keys d = map fst d"

definition dict_update :: "('k \<times> 'v) list \<Rightarrow> ('k \<times> 'v) list \<Rightarrow> ('k \<times> 'v) list" where
  "dict_update d e = fold (\<lambda>(k, v) acc. dict_set acc k v) e d"

section \<open>Taxonomy terms\<close>

text \<open>
  A term is the dict \<^verbatim>\<open>{'id': ..., 'name': ...}\<close> that \<^verbatim>\<open>fetch_terms_by_taxonomy\<close> builds; a term
  table maps ids to terms.
\<close>

record wp_term =
  term_id :: int
  name :: string

type_synonym term_table = "(int \<times> wp_term) list"

text \<open>
  \<^verbatim>\<open>
  def map_term_ids_to_names(ids, terms):
      return [terms.get(term_id, {'id': term_id, 'name': f"Unknown (ID: {term_id})"})['name']
              for term_id in ids]
  \<close>
\<close>

definition map_term_ids_to_names :: "int list \<Rightarrow> term_table \<Rightarrow> string list" where
  "map_term_ids_to_names ids terms =
     map (\<lambda>i. name (case dict_get terms i of
                       Some t \<Rightarrow> t
                     | None \<Rightarrow> \<lparr>term_id = i, name = ''Unknown (ID: '' @ str_int i @ '')''\<rparr>)) ids"

section \<open>The paginated fetcher\<close>

text \<open>
  What \<^verbatim>\<open>requests.get(url)\<close> hands back: a response on which \<^verbatim>\<open>raise_for_status()\<close> either
  raises \<^verbatim>\<open>HTTPError\<close> (an error status) or does not, and whose \<^verbatim>\<open>json()\<close> either raises
  \<^verbatim>\<open>JSONDecodeError\<close> or returns the decoded body. The transport itself is a parameter
  \<open>get\<close> of the model, from the URL to the response, or to the exception that
  \<^verbatim>\<open>requests.get\<close> raises.
\<close>

datatype body = InvalidJSON | Body json

datatype response = Response (raises_http_error: bool) (response_body: body)

type_synonym transport = "string \<Rightarrow> error + response"

text \<open>
  \<^verbatim>\<open>url = f"{domain_url}/wp-json/wp/v2/{endpoint}?per_page={per_page}&page={page}&_embed"\<close>
\<close>

definition page_url :: "string \<Rightarrow> string \<Rightarrow> int \<Rightarrow> int \<Rightarrow> string" where
  "page_url domain_url endpoint per_page page =
     domain_url @ ''/wp-json/wp/v2/'' @ endpoint @ ''?per_page='' @ str_int per_page
       @ ''&page='' @ str_int page @ ''&_embed''"

text \<open>
  What \<^verbatim>\<open>data.extend(items)\<close> appends: the elements of a list, the keys of a dict, the
  characters of a string; any other value is not iterable and \<^verbatim>\<open>extend\<close> raises
  \<^verbatim>\<open>TypeError\<close> (\<open>None\<close> here). \<^verbatim>\<open>len(items)\<close> is the length of the same sequence.
\<close>

fun py_iter :: "json \<Rightarrow> json list option" where
  "py_iter (JList xs) = Some xs"
| "py_iter (JObj kvs) = Some (map (\<lambda>kv. JStr (fst kv)) kvs)"
| "py_iter (JStr s) = Some (map (\<lambda>c. JStr [c]) s)"
| "py_iter _ = None"

text \<open>
  One pass through the body of the \<^verbatim>\<open>while True\<close> loop after the request, on the aggregated
  \<open>data\<close>: every \<^verbatim>\<open>break\<close>, also those of the three \<^verbatim>\<open>except\<close> clauses, is \<open>Break\<close>; reaching
  \<^verbatim>\<open>page += 1\<close> is \<open>Continue\<close>.
  \<^verbatim>\<open>
        try:
            response.raise_for_status()
            items = response.json()
            if not items:
                break
            data.extend(items)
            if len(items) < per_page:
                break
        except requests.exceptions.HTTPError as http_err: break
        except requests.exceptions.JSONDecodeError as json_err: break
        except Exception as err: break
        page += 1
  \<close>
\<close>

datatype flow = Break "json list" | Continue "json list"

fun try_page :: "response \<Rightarrow> int \<Rightarrow> json list \<Rightarrow> flow" where
  "try_page (Response err b) per_page data =
     (if err then Break data
      else case b of
        InvalidJSON \<Rightarrow> Break data
      | Body items \<Rightarrow>
          if \<not> truthy items then Break data
          else (case py_iter items of
                  None \<Rightarrow> Break data
                | Some xs \<Rightarrow>
                    if int (length xs) < per_page then Break (data @ xs)
                    else Continue (data @ xs)))"

text \<open>
  The loop of \<^verbatim>\<open>fetch_wordpress_data\<close>. It has no bound of its own (a server that fills
  every page keeps it running), so it is a partial function: \<open>None\<close> is a run that never
  returns. The result is the aggregated data with the list of the URLs requested, in
  order; \<^verbatim>\<open>requests.get\<close> is called outside the \<^verbatim>\<open>try\<close>, so what it raises leaves the function.
\<close>

partial_function (option) fetch_loop ::
  "transport \<Rightarrow> string \<Rightarrow> string \<Rightarrow> int \<Rightarrow> int \<Rightarrow> json list \<Rightarrow> string list
     \<Rightarrow> (error + json list \<times> string list) option" where
  "fetch_loop get domain_url endpoint per_page page data log =
     (case get (page_url domain_url endpoint per_page page) of
        Inl e \<Rightarrow> Some (Inl e)
      | Inr response \<Rightarrow>
          (case try_page response per_page data of
             Break data' \<Rightarrow>
               Some (Inr (data', log @ [page_url domain_url endpoint per_page page]))
           | Continue data' \<Rightarrow>
               fetch_loop get domain_url endpoint per_page (page + 1) data'
                 (log @ [page_url domain_url endpoint per_page page])))"

declare fetch_loop.simps [code]

definition fetch_wordpress_data ::
  "transport \<Rightarrow> string \<Rightarrow> string \<Rightarrow> int \<Rightarrow> (error + json list \<times> string list) option" where
  "fetch_wordpress_data get domain_url endpoint per_page =
     fetch_loop get domain_url endpoint per_page 1 [] []"

text \<open>
  A server for examples: the \<^verbatim>\<open>posts\<close> of \<^verbatim>\<open>https://wp.test\<close> in pages of 100, 100 and 42
  items; every other URL answers with an error status.
\<close>

definition three_page_server :: transport where
  "three_page_server url =
     (if url = ''https://wp.test/wp-json/wp/v2/posts?per_page=100&page=1&_embed''
        then Inr (Response False (Body (JList (replicate 100 (JInt 1)))))
      else if url = ''https://wp.test/wp-json/wp/v2/posts?per_page=100&page=2&_embed''
        then Inr (Response False (Body (JList (replicate 100 (JInt 2)))))
      else if url = ''https://wp.test/wp-json/wp/v2/posts?per_page=100&page=3&_embed''
        then Inr (Response False (Body (JList (replicate 42 (JInt 3)))))
      else Inr (Response True InvalidJSON))"

text \<open>
  A second server for examples: the \<^verbatim>\<open>tags\<close> in pages of 2; page 1 is full, the body of
  page 2 is not JSON.
\<close>

definition broken_server :: transport where
  "broken_server url =
     (if url = ''https://wp.test/wp-json/wp/v2/tags?per_page=2&page=1&_embed''
        then Inr (Response False (Body (JList [JInt 10, JInt 11])))
      else if url = ''https://wp.test/wp-json/wp/v2/tags?per_page=2&page=2&_embed''
        then Inr (Response False InvalidJSON)
      else Inr (Response True InvalidJSON))"

section \<open>Splitting and rendering the content body\<close>

text \<open>
  \<open>split_at_first pat s\<close> finds the first occurrence of \<open>pat\<close> in \<open>s\<close> and returns the text
  before it and the text after it.
\<close>

fun split_at_first :: "string \<Rightarrow> string \<Rightarrow> (string \<times> string) option" where
  "split_at_first pat [] = (if pat = [] then Some ([], []) else None)"
| "split_at_first pat (c # cs) =
     (if starts_with pat (c # cs) then Some ([], drop (length pat) (c # cs))
      else map_option (\<lambda>(before, after). (c # before, after)) (split_at_first pat cs))"

text \<open>
  The pattern of the split is \<^verbatim>\<open>(<div[^>]*wp-block[^>]*>.*?</div>)\<close> with \<^verbatim>\<open>re.DOTALL\<close>. A match
  that starts at the head of \<open>s\<close> is: the text \<^verbatim>\<open><div\<close>; then characters other than \<^verbatim>\<open>>\<close>
  among which \<^verbatim>\<open>wp-block\<close> occurs, up to the first \<^verbatim>\<open>>\<close> (both \<^verbatim>\<open>[^>]*\<close> stay before that
  \<^verbatim>\<open>>\<close>, wherever \<^verbatim>\<open>wp-block\<close> is taken); then, \<^verbatim>\<open>.*?\<close> being lazy and matching every
  character, the text up to the first \<^verbatim>\<open></div>\<close>. \<open>match_block s\<close> is the matched text
  and what follows it.
\<close>

definition match_block :: "string \<Rightarrow> (string \<times> string) option" where
  "match_block s =
     (if starts_with ''<div'' s then
        (case split_at_first ''>'' (drop 4 s) of
           None \<Rightarrow> None
         | Some (attrs, content) \<Rightarrow>
             if contains ''wp-block'' attrs then
               (case split_at_first ''</div>'' content of
                  None \<Rightarrow> None
                | Some (inner, rest) \<Rightarrow>
                    Some (''<div'' @ attrs @ ''>'' @ inner @ ''</div>'', rest))
             else None)
      else None)"

text \<open>The leftmost match in \<open>s\<close>: the text before it, the match, the text after it.\<close>

fun find_block :: "string \<Rightarrow> (string \<times> string \<times> string) option" where
  "find_block [] = None"
| "find_block (c # cs) =
     (case match_block (c # cs) of
        Some (block, rest) \<Rightarrow> Some ([], block, rest)
      | None \<Rightarrow> map_option (\<lambda>(before, block, rest). (c # before, block, rest)) (find_block cs))"

lemma split_at_first_parts: "split_at_first pat s = Some (a, r) \<Longrightarrow> s = a @ pat @ r"
proof (induction s arbitrary: a)
  case Nil
  then show ?case by (simp split: if_splits)
next
  case (Cons c cs)
  have sw: "starts_with p t \<Longrightarrow> t = p @ drop (length p) t" for p t
    by (induction p t rule: starts_with.induct) auto
  show ?case
  proof (cases "starts_with pat (c # cs)")
    case True
    with Cons.prems sw [of pat "c # cs"] show ?thesis by simp
  next
    case False
    with Cons.prems obtain a' where "split_at_first pat cs = Some (a', r)" "a = c # a'"
      by auto
    with Cons.IH show ?thesis by simp
  qed
qed

lemma match_block_parts: "match_block s = Some (block, rest) \<Longrightarrow> s = block @ rest \<and> block \<noteq> []"
proof -
  assume m: "match_block s = Some (block, rest)"
  have sw: "starts_with p t \<Longrightarrow> t = p @ drop (length p) t" for p t
    by (induction p t rule: starts_with.induct) auto
  from m have h: "starts_with ''<div'' s"
    by (simp add: match_block_def split: if_splits)
  from m h obtain attrs content inner where
    a: "split_at_first ''>'' (drop 4 s) = Some (attrs, content)" and
    b: "split_at_first ''</div>'' content = Some (inner, rest)" and
    c: "block = ''<div'' @ attrs @ ''>'' @ inner @ ''</div>''"
    by (auto simp: match_block_def split: if_splits option.splits)
  have l: "length ''<div'' = 4" by simp
  from sw [OF h] have "s = ''<div'' @ drop (length ''<div'') s" .
  then have "s = ''<div'' @ drop 4 s" by (simp only: l)
  also have "drop 4 s = attrs @ ''>'' @ content"
    by (rule split_at_first_parts [OF a])
  also have "content = inner @ ''</div>'' @ rest"
    by (rule split_at_first_parts [OF b])
  finally show ?thesis using c by simp
qed

lemma find_block_parts:
  "find_block s = Some (before, block, rest) \<Longrightarrow> s = before @ block @ rest \<and> block \<noteq> []"
proof (induction s arbitrary: before)
  case Nil
  then show ?case by simp
next
  case (Cons c cs)
  show ?case
  proof (cases "match_block (c # cs)")
    case None
    with Cons.prems obtain b' where "find_block cs = Some (b', block, rest)" "before = c # b'"
      by auto
    with Cons.IH show ?thesis by simp
  next
    case (Some m)
    with Cons.prems have "match_block (c # cs) = Some (block, rest)" "before = []"
      by (auto split: prod.splits)
    with match_block_parts show ?thesis by simp
  qed
qed

text \<open>
  \<^verbatim>\<open>blocks = re.split(r'(<div[^>]*wp-block[^>]*>.*?</div>)', html_content, flags=re.DOTALL)\<close>:
  with one capturing group around the whole pattern, the result alternates the text
  between the matches and the matches themselves, and ends with the text after the last
  match; the search goes on where the last match ended.
\<close>

function split_blocks :: "string \<Rightarrow> string list" where
  "split_blocks s =
     (case find_block s of
        None \<Rightarrow> [s]
      | Some (before, block, rest) \<Rightarrow> before # block # split_blocks rest)"
  by pat_completeness auto
termination
proof (relation "measure length")
  show "wf (measure length)" by simp
next
  fix s x2 x y xa ya
  assume "find_block s = Some x2" "(x, y) = x2" "(xa, ya) = y"
  then have "find_block s = Some (x, xa, ya)" by simp
  from find_block_parts [OF this] show "(ya, s) \<in> measure length" by auto
qed

declare split_blocks.simps [simp del]

text \<open>
  The body of the loop over the blocks, without the blank line it appends.
  \<^verbatim>\<open>
        if re.search(r'wp-block', block):
            converted_content += block.strip() + "\n\n"
        else:
            if use_markdown:
                converted_content += html_converter.handle(block).strip() + "\n\n"
            else:
                converted_content += block.strip() + "\n\n"
  \<close>
  \<^verbatim>\<open>html_converter.handle\<close> is the HTML-to-Markdown converter of the \<^verbatim>\<open>html2text\<close> library; it is
  the parameter \<open>handle\<close>.
\<close>

definition blank_line :: string where
  "blank_line = [CHR 0x0A, CHR 0x0A]"

definition render_block :: "(string \<Rightarrow> string) \<Rightarrow> bool \<Rightarrow> string \<Rightarrow> string" where
  "render_block handle use_markdown block =
     (if contains ''wp-block'' block then strip block
      else if use_markdown then strip (handle block)
      else strip block)"

definition converted_content :: "(string \<Rightarrow> string) \<Rightarrow> bool \<Rightarrow> string \<Rightarrow> string" where
  "converted_content handle use_markdown html_content =
     foldl (\<lambda>acc block. acc @ render_block handle use_markdown block @ blank_line) []
       (split_blocks html_content)"

text \<open>
  A converter for examples, which marks what it has converted: it puts \<^verbatim>\<open>[md]\<close> before
  the text.
\<close>

definition tag_handle :: "string \<Rightarrow> string" where
  "tag_handle s = ''[md]'' @ s"

section \<open>Media links\<close>

text \<open>
  \<^verbatim>\<open>
  def process_media_links(content, media_base_url):
      content = re.sub(r'!\[(.*?)\]\((https://example.com/wp-content/uploads/(.*?)\))',
                       r'!\[\1\](\3)', content)
      return content
  \<close>
  The pattern, read from the left: the text \<^verbatim>\<open>![\<close>; a lazy group 1 of characters other
  than the newline; the text \<^verbatim>\<open>](\<close>; then group 2, which is \<^verbatim>\<open>https://example\<close>, one character
  other than the newline (the dot of the pattern is not escaped), \<^verbatim>\<open>com/wp-content/uploads/\<close>,
  a lazy group 3 of characters other than the newline, and \<^verbatim>\<open>)\<close>.

  \<open>match_to_paren\<close> is group 3 with the closing parenthesis: the text up to the first
  \<^verbatim>\<open>)\<close> of the line, and what follows it.
\<close>

fun match_to_paren :: "string \<Rightarrow> (string \<times> string) option" where
  "match_to_paren [] = None"
| "match_to_paren (c # cs) =
     (if c = CHR '')'' then Some ([], cs)
      else if c = CHR 0x0A then None
      else map_option (\<lambda>(path, rest). (c # path, rest)) (match_to_paren cs))"

text \<open>What follows \<^verbatim>\<open>](\<close> in the pattern: group 3 and the rest of the text.\<close>

definition match_upload_url :: "string \<Rightarrow> (string \<times> string) option" where
  "match_upload_url s =
     (if starts_with ''https://example'' s then
        (case drop 15 s of
           [] \<Rightarrow> None
         | c # t \<Rightarrow>
             if c \<noteq> CHR 0x0A \<and> starts_with ''com/wp-content/uploads/'' t
             then match_to_paren (drop 23 t)
             else None)
      else None)"

text \<open>
  What follows \<^verbatim>\<open>![\<close>: the lazy group 1 takes the fewest characters of the line after which
  the rest of the pattern matches. The result is group 1, group 3 and the rest of the text.
\<close>

fun match_image :: "string \<Rightarrow> (string \<times> string \<times> string) option" where
  "match_image [] = None"
| "match_image (c # cs) =
     (case (if starts_with '']('' (c # cs) then match_upload_url (drop 2 (c # cs)) else None) of
        Some (path, rest) \<Rightarrow> Some ([], path, rest)
      | None \<Rightarrow>
          if c = CHR 0x0A then None
          else map_option (\<lambda>(alt, path, rest). (c # alt, path, rest)) (match_image cs))"

lemma match_to_paren_shorter: "match_to_paren s = Some (path, rest) \<Longrightarrow> length rest < length s"
  by (induction s arbitrary: path) (auto split: if_splits)

lemma match_upload_url_shorter: "match_upload_url s = Some (path, rest) \<Longrightarrow> length rest < length s"
proof -
  assume m: "match_upload_url s = Some (path, rest)"
  then obtain c t where d: "drop 15 s = c # t" and p: "match_to_paren (drop 23 t) = Some (path, rest)"
    by (auto simp: match_upload_url_def split: if_splits list.splits)
  from match_to_paren_shorter [OF p] have "length rest < length t" by simp
  also have "length t < length (drop 15 s)" by (simp add: d)
  also have "\<dots> \<le> length s" by simp
  finally show ?thesis .
qed

lemma match_image_shorter: "match_image s = Some (alt, path, rest) \<Longrightarrow> length rest < length s"
proof (induction s arbitrary: alt)
  case Nil
  then show ?case by simp
next
  case (Cons c cs)
  show ?case
  proof (cases "if starts_with '']('' (c # cs) then match_upload_url (drop 2 (c # cs)) else None")
    case None
    with Cons.prems obtain alt' where "match_image cs = Some (alt', path, rest)"
      by (auto split: if_splits)
    from Cons.IH [OF this] show ?thesis by simp
  next
    case (Some m)
    with Cons.prems have "match_upload_url (drop 2 (c # cs)) = Some (path, rest)"
      by (auto split: if_splits prod.splits)
    from match_upload_url_shorter [OF this] have "length rest < length (drop 2 (c # cs))" .
    also have "\<dots> \<le> length (c # cs)" by simp
    finally show ?thesis .
  qed
qed

text \<open>
  \<^verbatim>\<open>re.sub\<close> replaces the matches from the left, each search starting where the last match
  ended. In the replacement \<^verbatim>\<open>!\[\1\](\3)\<close> the escapes \<^verbatim>\<open>\[\<close> and \<^verbatim>\<open>\]\<close> are not known to
  \<^verbatim>\<open>re\<close>, which leaves them as they are: a backslash (character 0x5C) and the bracket.
\<close>

function re_sub_media :: "string \<Rightarrow> string" where
  "re_sub_media [] = []"
| "re_sub_media (c # cs) =
     (case (if starts_with ''!['' (c # cs) then match_image (drop 2 (c # cs)) else None) of
        Some (alt, path, rest) \<Rightarrow>
          [CHR ''!'', CHR 0x5C, CHR ''[''] @ alt @ [CHR 0x5C, CHR '']'', CHR ''(''] @ path @ '')''
            @ re_sub_media rest
      | None \<Rightarrow> c # re_sub_media cs)"
  by pat_completeness auto
termination
proof (relation "measure length")
  show "wf (measure length)" by simp
next
  fix c cs
  show "(cs, c # cs) \<in> measure length" by simp
next
  fix c cs x2 x y xa ya
  assume a: "(if starts_with ''!['' (c # cs) then match_image (drop 2 (c # cs)) else None) = Some x2"
     "(x, y) = x2" "(xa, ya) = y"
  then have "match_image (drop 2 (c # cs)) = Some (x, xa, ya)"
    by (auto split: if_splits)
  from match_image_shorter [OF this] have "length ya < length (drop 2 (c # cs))" .
  also have "\<dots> \<le> length (c # cs)" by simp
  finally show "(ya, c # cs) \<in> measure length" by simp
qed

declare re_sub_media.simps(2) [simp del]

definition process_media_links :: "string \<Rightarrow> string \<Rightarrow> string" where
  "process_media_links content media_base_url = re_sub_media content"

section \<open>Fetching taxonomies\<close>

text \<open>
  \<^verbatim>\<open>
  def fetch_terms_by_taxonomy(domain_url, taxonomy):
      terms = fetch_wordpress_data(domain_url, taxonomy)
      return {term['id']: {'id': term['id'], 'name': term['name']} for term in terms}
  \<close>
  \<open>term_entry\<close> is one step of the comprehension: a key that is missing raises
  \<^verbatim>\<open>KeyError\<close>, an item that is not a dict raises \<^verbatim>\<open>TypeError\<close>.
\<close>

fun term_entry :: "json \<Rightarrow> error + int \<times> wp_term" where
  "term_entry (JObj d) =
     (case dict_get d ''id'' of
        None \<Rightarrow> Inl KeyError
      | Some (JInt i) \<Rightarrow>
          (case dict_get d ''name'' of
             None \<Rightarrow> Inl KeyError
           | Some (JStr n) \<Rightarrow> Inr (i, \<lparr>term_id = i, name = n\<rparr>)
           | Some _ \<Rightarrow> Inl Unmodelled)
      | Some _ \<Rightarrow> Inl Unmodelled)"
| "term_entry _ = Inl TypeError"

fun terms_table :: "json list \<Rightarrow> term_table \<Rightarrow> error + term_table" where
  "terms_table [] table = Inr table"
| "terms_table (t # ts) table =
     (case term_entry t of
        Inl e \<Rightarrow> Inl e
      | Inr (i, entry) \<Rightarrow> terms_table ts (dict_set table i entry))"

definition fetch_terms_by_taxonomy :: "transport \<Rightarrow> string \<Rightarrow> string \<Rightarrow> (error + term_table) option" where
  "fetch_terms_by_taxonomy get domain_url taxonomy =
     (case fetch_wordpress_data get domain_url taxonomy 100 of
        None \<Rightarrow> None
      | Some (Inl e) \<Rightarrow> Some (Inl e)
      | Some (Inr (terms, log)) \<Rightarrow> Some (terms_table terms []))"

text \<open>
  The loop of \<^verbatim>\<open>fetch_custom_taxonomies\<close> over the custom taxonomies:
  \<^verbatim>\<open>
        for taxonomy in custom_taxonomies.keys():
            try:
                taxonomy_terms[taxonomy] = fetch_terms_by_taxonomy(domain_url, taxonomy)
            except requests.exceptions.HTTPError as http_err:
                continue  # Skip this taxonomy if 404 or any other error occurs
  \<close>
  Only \<^verbatim>\<open>HTTPError\<close> is caught here; any other exception leaves the loop.
\<close>

fun fetch_taxonomy_terms ::
  "transport \<Rightarrow> string \<Rightarrow> string list \<Rightarrow> (string \<times> term_table) list
     \<Rightarrow> (error + (string \<times> term_table) list) option" where
  "fetch_taxonomy_terms get domain_url [] taxonomy_terms = Some (Inr taxonomy_terms)"
| "fetch_taxonomy_terms get domain_url (taxonomy # rest) taxonomy_terms =
     (case fetch_terms_by_taxonomy get domain_url taxonomy of
        None \<Rightarrow> None
      | Some (Inl HTTPError) \<Rightarrow> fetch_taxonomy_terms get domain_url rest taxonomy_terms
      | Some (Inl e) \<Rightarrow> Some (Inl e)
      | Some (Inr terms) \<Rightarrow>
          fetch_taxonomy_terms get domain_url rest (dict_set taxonomy_terms taxonomy terms))"

text \<open>
  \<^verbatim>\<open>fetch_custom_taxonomies\<close>: the request for the list of taxonomies is made outside the
  \<^verbatim>\<open>try\<close>; inside it, every exception ends in \<^verbatim>\<open>return {}\<close>. The custom taxonomies are the
  keys of the listing other than \<^verbatim>\<open>category\<close> and \<^verbatim>\<open>post_tag\<close>; a listing that is not a JSON
  object has no \<^verbatim>\<open>items()\<close>, an \<^verbatim>\<open>AttributeError\<close> that the last \<^verbatim>\<open>except\<close> catches.
\<close>

definition fetch_custom_taxonomies ::
  "transport \<Rightarrow> string \<Rightarrow> (error + (string \<times> term_table) list) option" where
  "fetch_custom_taxonomies get domain_url =
     (case get (domain_url @ ''/wp-json/wp/v2/taxonomies'') of
        Inl e \<Rightarrow> Some (Inl e)
      | Inr (Response err b) \<Rightarrow>
          if err then Some (Inr [])
          else (case b of
                  InvalidJSON \<Rightarrow> Some (Inr [])
                | Body (JObj taxonomies) \<Rightarrow>
                    (case fetch_taxonomy_terms get domain_url
                            [key \<leftarrow> map fst taxonomies. key \<notin> set [''category'', ''post_tag'']] [] of
                       None \<Rightarrow> None
                     | Some (Inl e) \<Rightarrow> Some (Inr [])
                     | Some (Inr taxonomy_terms) \<Rightarrow> Some (Inr taxonomy_terms))
                | Body _ \<Rightarrow> Some (Inr [])))"

text \<open>
  A server for examples: it lists the taxonomies \<^verbatim>\<open>category\<close>, \<^verbatim>\<open>post_tag\<close>, \<^verbatim>\<open>genre\<close> and
  \<^verbatim>\<open>topic\<close>; the terms of \<^verbatim>\<open>topic\<close> are one term, Jazz; every other URL, so also the terms of
  \<^verbatim>\<open>genre\<close>, answers with an error status.
\<close>

definition taxonomy_server :: transport where
  "taxonomy_server url =
     (if url = ''https://wp.test/wp-json/wp/v2/taxonomies''
        then Inr (Response False (Body (JObj [(''category'', JObj []), (''post_tag'', JObj []),
                                              (''genre'', JObj []), (''topic'', JObj [])])))
      else if url = ''https://wp.test/wp-json/wp/v2/topic?per_page=100&page=1&_embed''
        then Inr (Response False (Body (JList [JObj [(''id'', JInt 3), (''name'', JStr ''Jazz'')]])))
      else Inr (Response True InvalidJSON))"

section \<open>Converting a post\<close>

text \<open>
  \<open>convert_post_to_md\<close> reads the post, a decoded JSON object, field by field. A field is
  read at the type the data model of the specification gives it; \<open>bind_result\<close> passes
  the first exception on, as Python does.
\<close>

definition bind_result :: "error + 'a \<Rightarrow> ('a \<Rightarrow> error + 'b) \<Rightarrow> error + 'b" where
  "bind_result r f = (case r of Inl e \<Rightarrow> Inl e | Inr x \<Rightarrow> f x)"

text \<open>\<^verbatim>\<open>post.get(key, {}).get('rendered', default)\<close>: a value that is not a dict has no \<^verbatim>\<open>get\<close>.\<close>

definition get_rendered :: "(string \<times> json) list \<Rightarrow> string \<Rightarrow> json \<Rightarrow> error + json" where
  "get_rendered post key dflt =
     (case dict_get post key of
        None \<Rightarrow> Inr dflt
      | Some (JObj d) \<Rightarrow> Inr (case dict_get d ''rendered'' of None \<Rightarrow> dflt | Some v \<Rightarrow> v)
      | Some _ \<Rightarrow> Inl AttributeError)"

text \<open>The argument of \<^verbatim>\<open>re.split\<close> and of \<^verbatim>\<open>html_converter.handle\<close> must be a string.\<close>

fun as_str :: "json \<Rightarrow> error + string" where
  "as_str (JStr s) = Inr s"
| "as_str _ = Inl TypeError"

text \<open>
  \<^verbatim>\<open>slug = post.get('slug', f'{post_type}-{post.get("id")}')\<close> and \<^verbatim>\<open>slug.replace('/', '-')\<close>: the
  slug only names the output file, which is not part of the model, but a slug that is
  not a string has no \<^verbatim>\<open>replace\<close>.
\<close>

definition check_slug :: "(string \<times> json) list \<Rightarrow> error + unit" where
  "check_slug post =
     (case dict_get post ''slug'' of
        None \<Rightarrow> Inr ()
      | Some (JStr s) \<Rightarrow> Inr ()
      | Some _ \<Rightarrow> Inl AttributeError)"

text \<open>
  The ids handed to \<open>map_term_ids_to_names\<close>: a list of integers. A value that cannot be
  iterated raises \<^verbatim>\<open>TypeError\<close>; other values are outside the data model.
\<close>

fun as_int :: "json \<Rightarrow> int option" where
  "as_int (JInt i) = Some i"
| "as_int _ = None"

fun as_ids :: "json \<Rightarrow> error + int list" where
  "as_ids (JList xs) =
     (if list_all (\<lambda>x. as_int x \<noteq> None) xs then Inr (map (\<lambda>x. the (as_int x)) xs)
      else Inl Unmodelled)"
| "as_ids JNull = Inl TypeError"
| "as_ids (JBool b) = Inl TypeError"
| "as_ids (JInt i) = Inl TypeError"
| "as_ids _ = Inl Unmodelled"

text \<open>
  \<^verbatim>\<open>author_id = post.get('author', 0)\<close> and \<^verbatim>\<open>author_name = authors.get(author_id, "Unknown")\<close>,
  with \<open>authors\<close> the dict from the id to the name that \<^verbatim>\<open>save_authors\<close> builds. A string or
  \<^verbatim>\<open>None\<close> is never a key of that dict; a list or a dict cannot be hashed.
\<close>

definition author_name_of :: "(int \<times> string) list \<Rightarrow> (string \<times> json) list \<Rightarrow> error + string" where
  "author_name_of authors post =
     (case dict_get post ''author'' of
        None \<Rightarrow> Inr (case dict_get authors 0 of None \<Rightarrow> ''Unknown'' | Some n \<Rightarrow> n)
      | Some (JInt author_id) \<Rightarrow>
          Inr (case dict_get authors author_id of None \<Rightarrow> ''Unknown'' | Some n \<Rightarrow> n)
      | Some (JStr s) \<Rightarrow> Inr ''Unknown''
      | Some JNull \<Rightarrow> Inr ''Unknown''
      | Some (JBool b) \<Rightarrow> Inl Unmodelled
      | Some _ \<Rightarrow> Inl TypeError)"

text \<open>A list of names as a frontmatter value.\<close>

definition names_json :: "string list \<Rightarrow> json" where
  "names_json names = JList (map JStr names)"

text \<open>
  \<^verbatim>\<open>
    for taxonomy, terms in custom_taxonomies.items():
        if taxonomy in post:
            frontmatter[taxonomy] = map_term_ids_to_names(post.get(taxonomy, []), terms)
  \<close>
\<close>

fun add_custom_taxonomies ::
  "(string \<times> term_table) list \<Rightarrow> (string \<times> json) list \<Rightarrow> (string \<times> json) list
     \<Rightarrow> error + (string \<times> json) list" where
  "add_custom_taxonomies [] post frontmatter = Inr frontmatter"
| "add_custom_taxonomies ((taxonomy, terms) # rest) post frontmatter =
     (case dict_get post taxonomy of
        None \<Rightarrow> add_custom_taxonomies rest post frontmatter
      | Some v \<Rightarrow>
          (case as_ids v of
             Inl e \<Rightarrow> Inl e
           | Inr ids \<Rightarrow>
               add_custom_taxonomies rest post
                 (dict_set frontmatter taxonomy (names_json (map_term_ids_to_names ids terms)))))"

text \<open>
  \<^verbatim>\<open>
    filtered_metadata = {k: v for k, v in post.items()
                         if k not in ['content', 'excerpt', 'guid', '_links', '_embedded', 'acf']}
  \<close>
\<close>

definition filtered_metadata :: "(string \<times> json) list \<Rightarrow> (string \<times> json) list" where
  "filtered_metadata post =
     filter (\<lambda>(k, v). k \<notin> set [''content'', ''excerpt'', ''guid'', ''_links'', ''_embedded'', ''acf''])
       post"

text \<open>
  \<open>save_as_markdown\<close> unwraps the title and writes the file: the frontmatter through
  \<^verbatim>\<open>yaml.dump(frontmatter, f, allow_unicode=True, sort_keys=False)\<close>, which keeps the order of the
  keys, then the content. The model returns the mapping and the content that are written.
  \<^verbatim>\<open>
    title = frontmatter.get('title', 'Untitled')
    if isinstance(title, dict):
        title = title.get('rendered', 'Untitled')
    frontmatter['title'] = title
  \<close>
\<close>

definition save_as_markdown ::
  "(string \<times> json) list \<Rightarrow> string \<Rightarrow> (string \<times> json) list \<times> string" where
  "save_as_markdown frontmatter content =
     (let title = (case dict_get frontmatter ''title'' of
                     None \<Rightarrow> JStr ''Untitled''
                   | Some (JObj d) \<Rightarrow>
                       (case dict_get d ''rendered'' of None \<Rightarrow> JStr ''Untitled'' | Some v \<Rightarrow> v)
                   | Some v \<Rightarrow> v)
      in (dict_set frontmatter ''title'' title, content))"

text \<open>
  \<^verbatim>\<open>
    acf_data = post.get('acf', None)
    if acf_data:
        frontmatter['acf'] = acf_data
  \<close>
\<close>

definition with_acf :: "(string \<times> json) list \<Rightarrow> (string \<times> json) list \<Rightarrow> (string \<times> json) list" where
  "with_acf post frontmatter =
     (case dict_get post ''acf'' of
        None \<Rightarrow> frontmatter
      | Some acf_data \<Rightarrow> if truthy acf_data then dict_set frontmatter ''acf'' acf_data else frontmatter)"

text \<open>
  \<open>convert_post_to_md\<close>, in the order of the source: the slug, the content body and its
  conversion, the author, the title, the dict literal of the first six keys (with the
  excerpt converted and trimmed), the categories and the tags, the ACF data, the custom
  taxonomies, the update with the remaining metadata, and the call of \<open>save_as_markdown\<close>.
  \<open>domain_url\<close> is a global of the script.
\<close>

definition convert_post_to_md ::
  "(string \<Rightarrow> string) \<Rightarrow> string \<Rightarrow> (string \<times> json) list \<Rightarrow> (int \<times> string) list
     \<Rightarrow> term_table \<Rightarrow> term_table \<Rightarrow> (string \<times> term_table) list \<Rightarrow> string \<Rightarrow> bool
     \<Rightarrow> error + (string \<times> json) list \<times> string" where
  "convert_post_to_md handle domain_url post authors categories tags custom_taxonomies
       post_type use_markdown =
     bind_result (check_slug post) (\<lambda>_.
     bind_result (bind_result (get_rendered post ''content'' (JStr [])) as_str) (\<lambda>html_content.
     bind_result (author_name_of authors post) (\<lambda>author_name.
     bind_result (get_rendered post ''title'' (JStr ''Untitled'')) (\<lambda>title.
     bind_result (bind_result (get_rendered post ''excerpt'' (JStr [])) as_str) (\<lambda>excerpt.
     bind_result (as_ids (case dict_get post ''categories'' of None \<Rightarrow> JList [] | Some v \<Rightarrow> v))
       (\<lambda>category_ids.
     bind_result (as_ids (case dict_get post ''tags'' of None \<Rightarrow> JList [] | Some v \<Rightarrow> v))
       (\<lambda>tag_ids.
     bind_result
       (add_custom_taxonomies custom_taxonomies post
          (with_acf post
             (dict_set
                (dict_set
                   [(''title'', title),
                    (''date'', case dict_get post ''date'' of None \<Rightarrow> JStr [] | Some v \<Rightarrow> v),
                    (''author'', JStr author_name),
                    (''excerpt'', JStr (strip (handle excerpt))),
                    (''custom_url'', case dict_get post ''slug'' of None \<Rightarrow> JStr [] | Some v \<Rightarrow> v),
                    (''type'', JStr post_type)]
                   ''categories'' (names_json (map_term_ids_to_names category_ids categories)))
                ''tags'' (names_json (map_term_ids_to_names tag_ids tags)))))
       (\<lambda>frontmatter.
          Inr (save_as_markdown
                 (dict_update frontmatter (filtered_metadata post))
                 (process_media_links (converted_content handle use_markdown html_content)
                    domain_url))))))))))"

text \<open>
  The keys of \<open>frontmatter\<close> when the loop over the custom taxonomies starts: the six of the
  dict literal, \<^verbatim>\<open>categories\<close> and \<^verbatim>\<open>tags\<close>, then \<^verbatim>\<open>acf\<close> when the post has ACF data that is
  true.
\<close>

definition keys_before_taxonomies :: "(string \<times> json) list \<Rightarrow> string list" where
  "keys_before_taxonomies post =
     [''title'', ''date'', ''author'', ''excerpt'', ''custom_url'', ''type'', ''categories'', ''tags'']
       @ (if (case dict_get post ''acf'' of None \<Rightarrow> False | Some acf_data \<Rightarrow> truthy acf_data)
          then [''acf''] else [])"

section \<open>Properties\<close>

subsection \<open>Mapping term ids to names\<close>

lemma str_int_99: "str_int 99 = ''99''"
  by (simp add: str_int_def str_nat.simps)

text \<open>
  C4. For every list of term ids and every term table, \<open>map_term_ids_to_names\<close> returns a
  list as long as the ids, and at every position the name of the term the table has for
  that id, or the placeholder \<^verbatim>\<open>Unknown (ID: <id>)\<close> when the table has none; no run raises
  (the function is total). The ids \<open>[5, 99]\<close> with a table holding only 5, named News, give
  \<open>[News, Unknown (ID: 99)]\<close>.
\<close>

theorem map_term_ids_to_names_spec:
  "length (map_term_ids_to_names ids terms) = length ids \<and>
   (\<forall>i < length ids.
      map_term_ids_to_names ids terms ! i =
        (case dict_get terms (ids ! i) of
           Some t \<Rightarrow> name t
         | None \<Rightarrow> ''Unknown (ID: '' @ str_int (ids ! i) @ '')'')) \<and>
   map_term_ids_to_names [5, 99] [(5, \<lparr>term_id = 5, name = ''News''\<rparr>)]
     = [''News'', ''Unknown (ID: 99)'']"
  by (auto simp: map_term_ids_to_names_def dict_get_def str_int_99 split: option.splits)

theorem map_term_ids_to_names_spec_witness:
  "(1::nat) < length [5, 99 :: int] \<and>
   map_term_ids_to_names [5, 99] [(5, \<lparr>term_id = 5, name = ''News''\<rparr>)] ! 1 = ''Unknown (ID: 99)'' \<and>
   map_term_ids_to_names [5, 99] [(5, \<lparr>term_id = 5, name = ''News''\<rparr>)] ! 0 = ''News''"
  using map_term_ids_to_names_spec [of "[5, 99]" "[(5, \<lparr>term_id = 5, name = ''News''\<rparr>)]"]
  by simp

subsection \<open>The paginated fetcher\<close>

text \<open>
  The loop, started at page \<open>p\<close> with \<open>data\<close> aggregated: when the next pages are full
  (not empty, and not shorter than the page size) and the page after them makes the loop
  break, the run returns, having requested each of these pages once, in order.
\<close>

lemma fetch_loop_run:
  assumes "\<forall>k < length pages.
             get (page_url d e pp (p + int k)) = Inr (Response False (Body (JList (pages ! k))))
           \<and> pages ! k \<noteq> [] \<and> pp \<le> int (length (pages ! k))"
    and "get (page_url d e pp (p + int (length pages))) = Inr r"
    and "try_page r pp (data @ concat pages) = Break data'"
  shows "fetch_loop get d e pp p data log =
           Some (Inr (data', log @ map (\<lambda>k. page_url d e pp (p + int k)) [0..<Suc (length pages)]))"
  using assms
proof (induction pages arbitrary: p data log)
  case Nil
  then show ?case by (subst fetch_loop.simps) simp
next
  case (Cons x xs)
  have x: "get (page_url d e pp p) = Inr (Response False (Body (JList x)))" "x \<noteq> []" "pp \<le> int (length x)"
    using Cons.prems(1) by force+
  have step: "\<forall>k<length xs. get (page_url d e pp ((p + 1) + int k)) = Inr (Response False (Body (JList (xs ! k))))
           \<and> xs ! k \<noteq> [] \<and> pp \<le> int (length (xs ! k))"
  proof (intro allI impI)
    fix k assume "k < length xs"
    then have "Suc k < length (x # xs)" by simp
    from Cons.prems(1)[rule_format, OF this] show "get (page_url d e pp ((p + 1) + int k)) = Inr (Response False (Body (JList (xs ! k))))
           \<and> xs ! k \<noteq> [] \<and> pp \<le> int (length (xs ! k))"
      by (simp add: add.assoc)
  qed
  have r: "get (page_url d e pp ((p + 1) + int (length xs))) = Inr r"
    using Cons.prems(2) by (simp add: add.assoc)
  have b: "try_page r pp ((data @ x) @ concat xs) = Break data'"
    using Cons.prems(3) by simp
  have IH: "fetch_loop get d e pp (p + 1) (data @ x) (log @ [page_url d e pp p]) =
           Some (Inr (data', (log @ [page_url d e pp p]) @ map (\<lambda>k. page_url d e pp ((p + 1) + int k)) [0..<Suc (length xs)]))"
    by (rule Cons.IH[OF step r b])
  have m: "map (\<lambda>k. page_url d e pp (p + int k)) [0..<Suc (length (x # xs))]
      = page_url d e pp p # map (\<lambda>k. page_url d e pp ((p + 1) + int k)) [0..<Suc (length xs)]"
    by (simp only: upt_conv_Cons[of 0] map_Suc_upt[symmetric] length_Cons zero_less_Suc list.map map_map o_def) (simp add: add.assoc)
  have "fetch_loop get d e pp p data log
      = fetch_loop get d e pp (p + 1) (data @ x) (log @ [page_url d e pp p])"
    using x by (subst fetch_loop.simps) simp
  also note IH
  finally show ?case
    by (simp only: m append_Cons append_Nil append_assoc)
qed

lemma str_int_small: "str_int 1 = ''1''" "str_int 2 = ''2''" "str_int 3 = ''3''" "str_int 100 = ''100''"
  by (simp_all add: str_int_def str_nat.simps)

text \<open>
  C2. The server's pages are \<open>pages\<close>, page \<open>k + 1\<close> being \<open>pages ! k\<close>; all but the last
  are full (not empty, and not shorter than the page size \<open>pp\<close>), the last is empty or
  strictly shorter than \<open>pp\<close>. Then the fetcher returns the concatenation of the pages in
  the server's order, and the requests it made are exactly those for pages 1, 2, ... up
  to the last page, each with page size \<open>pp\<close>: it went on after every full page and
  stopped at the first empty or short one. The witness is the case of pages of sizes
  100, 100 and 42: 242 items and three requests, no fourth.
\<close>

theorem fetch_wordpress_data_paginates:
  assumes ok: "\<forall>k < length pages.
                 get (page_url d e pp (1 + int k)) = Inr (Response False (Body (JList (pages ! k))))"
    and ne: "pages \<noteq> []"
    and full: "\<forall>k < length pages - 1. pages ! k \<noteq> [] \<and> pp \<le> int (length (pages ! k))"
    and fin: "last pages = [] \<or> int (length (last pages)) < pp"
  shows "fetch_wordpress_data get d e pp =
           Some (Inr (concat pages, map (\<lambda>k. page_url d e pp (1 + int k)) [0..<length pages]))"
proof -
  define front where "front = butlast pages"
  have pages: "pages = front @ [last pages]"
    using ne by (simp add: front_def)
  have len: "length pages = Suc (length front)"
    by (subst pages) simp
  have nth_front: "front ! k = pages ! k" if "k < length front" for k
    using that by (simp add: front_def nth_butlast)
  have a: "\<forall>k < length front.
             get (page_url d e pp (1 + int k)) = Inr (Response False (Body (JList (front ! k))))
           \<and> front ! k \<noteq> [] \<and> pp \<le> int (length (front ! k))"
    using ok full by (simp add: len nth_front)
  have "pages ! length front = last pages"
    by (subst pages) simp
  with ok have b: "get (page_url d e pp (1 + int (length front)))
                     = Inr (Response False (Body (JList (last pages))))"
    by (metis len lessI)
  have cc: "concat pages = concat front @ last pages"
    by (subst pages) simp
  have c: "try_page (Response False (Body (JList (last pages)))) pp ([] @ concat front)
             = Break (concat pages)"
    using fin by (auto simp: cc)
  show ?thesis
    unfolding fetch_wordpress_data_def
    using fetch_loop_run [OF a b c, of "[]"] by (simp only: len append_Nil)
qed

theorem fetch_wordpress_data_paginates_witness:
  "fetch_wordpress_data three_page_server ''https://wp.test'' ''posts'' 100 =
     Some (Inr (replicate 100 (JInt 1) @ replicate 100 (JInt 2) @ replicate 42 (JInt 3),
                [''https://wp.test/wp-json/wp/v2/posts?per_page=100&page=1&_embed'',
                 ''https://wp.test/wp-json/wp/v2/posts?per_page=100&page=2&_embed'',
                 ''https://wp.test/wp-json/wp/v2/posts?per_page=100&page=3&_embed'']))
   \<and> length (replicate 100 (JInt 1) @ replicate 100 (JInt 2) @ replicate 42 (JInt 3)) = 242"
proof -
  let ?pages = "[replicate 100 (JInt 1), replicate 100 (JInt 2), replicate 42 (JInt 3)]"
  have ok: "\<forall>k < length ?pages.
              three_page_server (page_url ''https://wp.test'' ''posts'' 100 (1 + int k))
                = Inr (Response False (Body (JList (?pages ! k))))"
  proof (intro allI impI)
    fix k :: nat
    assume "k < length ?pages"
    then consider "k = 0" | "k = 1" | "k = 2"
      by (auto simp: less_Suc_eq)
    then show "three_page_server (page_url ''https://wp.test'' ''posts'' 100 (1 + int k))
                = Inr (Response False (Body (JList (?pages ! k))))"
      by cases (simp_all add: page_url_def str_int_small three_page_server_def)
  qed
  have ne: "?pages \<noteq> []" by simp
  have full: "\<forall>k < length ?pages - 1. ?pages ! k \<noteq> [] \<and> 100 \<le> int (length (?pages ! k))"
    by (auto simp: less_Suc_eq)
  have fin: "last ?pages = [] \<or> int (length (last ?pages)) < 100" by simp
  have urls: "map (\<lambda>k. page_url ''https://wp.test'' ''posts'' 100 (1 + int k)) [0..<length ?pages]
     = [''https://wp.test/wp-json/wp/v2/posts?per_page=100&page=1&_embed'',
                 ''https://wp.test/wp-json/wp/v2/posts?per_page=100&page=2&_embed'',
                 ''https://wp.test/wp-json/wp/v2/posts?per_page=100&page=3&_embed'']"
    by (simp add: page_url_def str_int_small upt_rec)
  have cc: "concat ?pages = replicate 100 (JInt 1) @ replicate 100 (JInt 2) @ replicate 42 (JInt 3)"
    by simp
  show ?thesis
    using fetch_wordpress_data_paginates [OF ok ne full fin]
    by (simp only: urls cc length_append length_replicate) simp
qed

text \<open>
  C3. Pages 1 to \<open>n - 1\<close> are the full pages \<open>pages\<close> (so \<open>n = length pages + 1\<close>), and the
  response for page \<open>n\<close> has an error status (\<^verbatim>\<open>raise_for_status\<close> raises \<^verbatim>\<open>HTTPError\<close>) or a
  body that is not JSON. Then the fetcher returns a value (it neither raises nor runs on):
  the items of pages 1 to \<open>n - 1\<close>; and its requests are those for pages 1 to \<open>n\<close>, each
  once: no second request for page \<open>n\<close> and none for a later page.
\<close>

theorem fetch_wordpress_data_failure:
  assumes ok: "\<forall>k < length pages.
                 get (page_url d e pp (1 + int k)) = Inr (Response False (Body (JList (pages ! k))))
               \<and> pages ! k \<noteq> [] \<and> pp \<le> int (length (pages ! k))"
    and fail: "get (page_url d e pp (1 + int (length pages))) = Inr (Response err b)"
    and bad: "err \<or> b = InvalidJSON"
  shows "fetch_wordpress_data get d e pp =
           Some (Inr (concat pages,
                      map (\<lambda>k. page_url d e pp (1 + int k)) [0..<Suc (length pages)]))"
proof -
  have c: "try_page (Response err b) pp ([] @ concat pages) = Break (concat pages)"
    using bad by auto
  show ?thesis
    unfolding fetch_wordpress_data_def
    using fetch_loop_run [OF ok fail c, of "[]"] by (simp only: append_Nil)
qed

theorem fetch_wordpress_data_failure_witness:
  "fetch_wordpress_data broken_server ''https://wp.test'' ''tags'' 2 =
     Some (Inr ([JInt 10, JInt 11],
                [''https://wp.test/wp-json/wp/v2/tags?per_page=2&page=1&_embed'',
                 ''https://wp.test/wp-json/wp/v2/tags?per_page=2&page=2&_embed'']))"
proof -
  let ?pages = "[[JInt 10, JInt 11]]"
  have ok: "\<forall>k < length ?pages.
              broken_server (page_url ''https://wp.test'' ''tags'' 2 (1 + int k))
                = Inr (Response False (Body (JList (?pages ! k))))
              \<and> ?pages ! k \<noteq> [] \<and> 2 \<le> int (length (?pages ! k))"
    by (simp add: page_url_def str_int_small broken_server_def)
  have fail: "broken_server (page_url ''https://wp.test'' ''tags'' 2 (1 + int (length ?pages)))
                = Inr (Response False InvalidJSON)"
    by (simp add: page_url_def str_int_small broken_server_def)
  have bad: "False \<or> InvalidJSON = InvalidJSON" by simp
  have urls: "map (\<lambda>k. page_url ''https://wp.test'' ''tags'' 2 (1 + int k)) [0..<Suc (length ?pages)]
     = [''https://wp.test/wp-json/wp/v2/tags?per_page=2&page=1&_embed'',
        ''https://wp.test/wp-json/wp/v2/tags?per_page=2&page=2&_embed'']"
    by (simp add: page_url_def str_int_small upt_rec)
  show ?thesis
    using fetch_wordpress_data_failure [OF ok fail bad]
    by (simp only: urls) simp
qed

subsection \<open>Splitting and rendering the content body\<close>



lemma starts_with_append: "starts_with p a \<Longrightarrow> starts_with p (a @ b)"
  by (induction p a rule: starts_with.induct) auto

lemma contains_append_left: "contains p a \<Longrightarrow> contains p (a @ b)"
proof (induction a)
  case Nil
  then show ?case by (cases b) simp_all
next
  case (Cons c cs)
  then show ?case using starts_with_append [of p "c # cs" b] by auto
qed

lemma contains_append_right: "contains p b \<Longrightarrow> contains p (a @ b)"
  by (induction a) auto

lemma match_block_shape:
  assumes "match_block s = Some (block, rest)"
  shows "\<exists>attrs inner. block = ''<div'' @ attrs @ ''>'' @ inner @ ''</div>'' \<and> contains ''wp-block'' attrs"
proof -
  from assms obtain attrs content inner where
    "contains ''wp-block'' attrs" and
    "block = ''<div'' @ attrs @ ''>'' @ inner @ ''</div>''"
    by (auto simp: match_block_def split: if_splits option.splits)
  then show ?thesis by blast
qed


lemma block_contains_marker:
  assumes "contains ''wp-block'' attrs"
  shows "contains ''wp-block'' (''<div'' @ attrs @ ''>'' @ inner @ ''</div>'')"
  by (rule contains_append_right, rule contains_append_left, rule assms)

lemma find_block_no_marker: "\<not> contains ''wp-block'' s \<Longrightarrow> find_block s = None"
proof (induction s)
  case Nil
  then show ?case by simp
next
  case (Cons c cs)
  have "match_block (c # cs) = None"
  proof (rule ccontr)
    assume "match_block (c # cs) \<noteq> None"
    then obtain block rest where m: "match_block (c # cs) = Some (block, rest)" by auto
    from match_block_shape [OF m] obtain attrs inner where
      b: "block = ''<div'' @ attrs @ ''>'' @ inner @ ''</div>''" and a: "contains ''wp-block'' attrs"
      by blast
    from match_block_parts [OF m] have "c # cs = block @ rest" by simp
    moreover have "contains ''wp-block'' block"
      unfolding b by (rule block_contains_marker [OF a])
    ultimately have "contains ''wp-block'' (c # cs)"
      by (simp only: contains_append_left)
    with Cons.prems show False by simp
  qed
  moreover from Cons.prems have "\<not> contains ''wp-block'' cs" by simp
  ultimately show ?case using Cons.IH by simp
qed



lemma split_blocks_odd_length: "odd (length (split_blocks s))"
  by (induction s rule: split_blocks.induct) (subst split_blocks.simps, auto split: option.splits)

lemma concat_split_blocks: "concat (split_blocks s) = s"
proof (induction s rule: split_blocks.induct)
  case (1 s)
  show ?case
  proof (cases "find_block s")
    case None
    then show ?thesis by (subst split_blocks.simps) simp
  next
    case (Some t)
    then obtain before block rest where f: "find_block s = Some (before, block, rest)"
      by (cases t) auto
    have sp: "split_blocks s = before # block # split_blocks rest"
      by (subst split_blocks.simps) (simp add: f)
    have "concat (split_blocks s) = before @ block @ concat (split_blocks rest)"
      by (simp only: sp concat.simps)
    also from "1.IH" [OF f] have "concat (split_blocks rest) = rest" by simp
    also from find_block_parts [OF f] have "before @ block @ rest = s" by simp
    finally show ?thesis .
  qed
qed






text \<open>
  C9 (as the code has it). A body in which the marker \<^verbatim>\<open>wp-block\<close> does not occur is split into one segment, the
  body itself, and the result of splitting, rendering and rejoining is the rendering of
  the whole body, once: in Markdown mode the converter applied to the whole body,
  trimmed and followed by the blank line that follows every segment.
\<close>

theorem unmarked_body_single_segment:
  "\<not> contains ''wp-block'' html \<Longrightarrow>
     split_blocks html = [html] \<and>
     converted_content handle use_markdown html = render_block handle use_markdown html @ blank_line \<and>
     converted_content handle True html = strip (handle html) @ blank_line"
proof -
  assume n: "\<not> contains ''wp-block'' html"
  have sp: "split_blocks html = [html]"
    by (subst split_blocks.simps) (simp add: find_block_no_marker [OF n])
  show ?thesis
    using n by (simp add: sp converted_content_def render_block_def)
qed

theorem unmarked_body_single_segment_witness:
  "\<not> contains ''wp-block'' ''<p>Hello</p>'' \<and>
   split_blocks ''<p>Hello</p>'' = [''<p>Hello</p>''] \<and>
   converted_content tag_handle True ''<p>Hello</p>'' = ''[md]<p>Hello</p>\<newline>\<newline>''"
proof -
  have n: "\<not> contains ''wp-block'' ''<p>Hello</p>''" by code_simp
  have s: "strip (tag_handle ''<p>Hello</p>'') = ''[md]<p>Hello</p>''" by code_simp
  note t = unmarked_body_single_segment [OF n, of tag_handle True]
  from t have a: "split_blocks ''<p>Hello</p>'' = [''<p>Hello</p>'']" by (rule conjunct1)
  from t have "converted_content tag_handle True ''<p>Hello</p>''
                 = strip (tag_handle ''<p>Hello</p>'') @ blank_line"
    by blast
  then have b: "converted_content tag_handle True ''<p>Hello</p>''
                  = ''[md]<p>Hello</p>\<newline>\<newline>''"
    by (simp only: s blank_line_def) simp
  from n a b show ?thesis by (intro conjI)
qed

text \<open>
  C9 as stated fails: the result for a body without the marker is not the transformation
  of the whole body as the converter returns it, since the loop trims what the converter
  returns and appends a blank line.
\<close>

theorem unmarked_body_not_raw_conversion_counterexample:
  "converted_content tag_handle True ''<p>Hello</p>'' \<noteq> tag_handle ''<p>Hello</p>''"
  by code_simp

text \<open>
  C6 as stated fails: the split of the empty body is not the empty sequence.
\<close>

theorem empty_body_not_empty_split_counterexample:
  "split_blocks [] \<noteq> []"
  by (simp add: split_blocks.simps)

text \<open>
  C6 (as the code has it). The split of the empty body is one segment, the empty one,
  which is rendered like every other segment. No segment is filtered out: the number of
  segments is odd (a span before, between and after the blocks, empty or not) and the
  segments together are the body; two blocks separated by one space give five segments,
  of which the first and the last are empty and the middle one is the space.
\<close>

theorem split_keeps_every_segment:
  "split_blocks [] = [[]] \<and>
   converted_content handle True [] = strip (handle []) @ blank_line \<and>
   odd (length (split_blocks html)) \<and>
   concat (split_blocks html) = html \<and>
   split_blocks ''<div class=wp-block-a>x</div> <div class=wp-block-b>y</div>''
     = ['''', ''<div class=wp-block-a>x</div>'', '' '', ''<div class=wp-block-b>y</div>'', '''']"
proof (intro conjI)
  show e: "split_blocks [] = [[]]"
    by (simp add: split_blocks.simps)
  show "converted_content handle True [] = strip (handle []) @ blank_line"
    by (simp add: converted_content_def e render_block_def)
  show "odd (length (split_blocks html))"
    by (rule split_blocks_odd_length)
  show "concat (split_blocks html) = html"
    by (rule concat_split_blocks)
  show "split_blocks ''<div class=wp-block-a>x</div> <div class=wp-block-b>y</div>''
     = ['''', ''<div class=wp-block-a>x</div>'', '' '', ''<div class=wp-block-b>y</div>'', '''']"
    by code_simp
qed

subsection \<open>Media links\<close>

lemma contains_drop: "contains p (drop n s) \<Longrightarrow> contains p s"
proof (induction s arbitrary: n)
  case Nil
  then show ?case by simp
next
  case (Cons c cs)
  then show ?case by (cases n) auto
qed

lemma starts_with_split:
  "starts_with (a @ b) s \<longleftrightarrow> starts_with a s \<and> starts_with b (drop (length a) s)"
  by (induction a s rule: starts_with.induct) auto

lemma starts_with_contains: "starts_with p s \<Longrightarrow> contains p s"
  by (cases s) (auto elim: starts_with.elims)

lemma match_image_needs_url:
  "\<not> contains ''](https://example'' s \<Longrightarrow> match_image s = None"
proof (induction s)
  case Nil
  then show ?case by simp
next
  case (Cons c cs)
  have "\<not> starts_with ('']('' @ ''https://example'') (c # cs)"
    using Cons.prems starts_with_contains [of "''](https://example''" "c # cs"] by auto
  then have "\<not> (starts_with '']('' (c # cs) \<and> starts_with ''https://example'' (drop 2 (c # cs)))"
    by (subst (asm) starts_with_split) simp
  then have "(if starts_with '']('' (c # cs) then match_upload_url (drop 2 (c # cs)) else None) = None"
    by (auto simp: match_upload_url_def)
  moreover from Cons.prems have "\<not> contains ''](https://example'' cs" by simp
  ultimately show ?case using Cons.IH by (simp del: starts_with.simps)
qed

lemma re_sub_media_unchanged:
  "\<not> contains ''](https://example'' s \<Longrightarrow> re_sub_media s = s"
proof (induction s)
  case Nil
  then show ?case by simp
next
  case (Cons c cs)
  from Cons.prems have "\<not> contains ''](https://example'' (drop 2 (c # cs))"
    using contains_drop by blast
  then have "match_image (drop 2 (c # cs)) = None"
    by (rule match_image_needs_url)
  moreover from Cons.prems have "\<not> contains ''](https://example'' cs" by simp
  ultimately show ?case using Cons.IH by (simp add: re_sub_media.simps(2) del: starts_with.simps)
qed

text \<open>
  The result of \<open>process_media_links\<close> does not depend on its \<open>media_base_url\<close> argument:
  for every content and any two values of the argument the results are the same, the
  argument never being read; and a content in which the text \<^verbatim>\<open>](https://example\<close> does not
  occur, so one without an image reference into the fixed host of the pattern, is
  returned unchanged.
\<close>

lemma process_media_links_ignores_base_url:
  "process_media_links content url1 = process_media_links content url2 \<and>
   (\<not> contains ''](https://example'' content \<longrightarrow> process_media_links content url1 = content)"
  by (simp add: process_media_links_def re_sub_media_unchanged)

lemma process_media_links_ignores_base_url_example:
  "\<not> contains ''](https://example'' ''![logo](https://cdn.other.org/logo.png)'' \<and>
   process_media_links ''![logo](https://cdn.other.org/logo.png)'' ''https://my-site.com''
     = ''![logo](https://cdn.other.org/logo.png)'' \<and>
   process_media_links ''![logo](https://cdn.other.org/logo.png)'' ''https://my-site.com''
     = process_media_links ''![logo](https://cdn.other.org/logo.png)'' ''https://example.com''"
proof -
  have n: "\<not> contains ''](https://example'' ''![logo](https://cdn.other.org/logo.png)''"
    by code_simp
  note t = process_media_links_ignores_base_url
         [of "''![logo](https://cdn.other.org/logo.png)''" "''https://my-site.com''" "''https://example.com''"]
  from t have a: "process_media_links ''![logo](https://cdn.other.org/logo.png)'' ''https://my-site.com''
     = process_media_links ''![logo](https://cdn.other.org/logo.png)'' ''https://example.com''"
    by (rule conjunct1)
  from t n have b: "process_media_links ''![logo](https://cdn.other.org/logo.png)'' ''https://my-site.com''
     = ''![logo](https://cdn.other.org/logo.png)''"
    by blast
  from n b a show ?thesis by (intro conjI)
qed

text \<open>
  C10. The claim is that only the image references whose URL begins with the literal
  prefix \<^verbatim>\<open>https://example.com/wp-content/uploads/\<close> are rewritten, and that a reference under
  any other host is returned unchanged. The pattern of the code aims at that prefix and
  misses: its dot is not escaped, so a reference under the host \<^verbatim>\<open>exampleXcom\<close> is rewritten
  too; and, the first group running over \<^verbatim>\<open>](\<close> and the replacement putting a backslash
  before each bracket, the text of a reference under \<^verbatim>\<open>other.com\<close> is changed when a
  reference that matches follows it on the same line.
\<close>

theorem process_media_links_rewrites_other_host:
  "process_media_links ''![a](https://exampleXcom/wp-content/uploads/x.png)'' ''https://my-site.com''
     = [CHR ''!'', CHR 0x5C] @ ''[a'' @ [CHR 0x5C] @ ''](x.png)'' \<and>
   process_media_links
       ''![a](https://other.com/i.png) ![b](https://example.com/wp-content/uploads/x.png)''
       ''https://my-site.com''
     = [CHR ''!'', CHR 0x5C] @ ''[a](https://other.com/i.png) ![b'' @ [CHR 0x5C] @ ''](x.png)''"
  by code_simp

subsection \<open>The frontmatter\<close>

lemma dict_keys_dict_set:
  "dict_keys (dict_set d k v) = (if k \<in> set (dict_keys d) then dict_keys d else dict_keys d @ [k])"
  by (induction d k v rule: dict_set.induct) (auto simp: dict_keys_def)

lemma dict_keys_dict_update:
  "distinct (map fst e) \<Longrightarrow>
     dict_keys (dict_update d e) = dict_keys d @ [k \<leftarrow> map fst e. k \<notin> set (dict_keys d)]"
proof (induction e arbitrary: d)
  case Nil
  then show ?case by (simp add: dict_update_def)
next
  case (Cons kv e)
  obtain k v where kv: "kv = (k, v)" by (cases kv)
  from Cons.prems have d: "distinct (map fst e)" and k: "k \<notin> set (map fst e)"
    by (simp_all add: kv)
  have u: "dict_update d ((k, v) # e) = dict_update (dict_set d k v) e"
    by (simp add: dict_update_def)
  show ?case
  proof (cases "k \<in> set (dict_keys d)")
    case True
    then show ?thesis
      unfolding kv by (simp add: u Cons.IH [OF d] dict_keys_dict_set)
  next
    case False
    have "[x \<leftarrow> map fst e. x \<notin> set (dict_keys d @ [k])] = [x \<leftarrow> map fst e. x \<notin> set (dict_keys d)]"
      using k by (intro filter_cong) auto
    with False show ?thesis
      unfolding kv by (simp add: u Cons.IH [OF d] dict_keys_dict_set)
  qed
qed

lemma dict_get_in_keys: "dict_get d k \<noteq> None \<longleftrightarrow> k \<in> set (map fst d)"
  by (simp add: dict_get_def map_of_eq_None_iff)

lemma dict_keys_add_custom_taxonomies:
  "distinct (map fst cts) \<Longrightarrow> add_custom_taxonomies cts post fm = Inr fm' \<Longrightarrow>
     dict_keys fm' =
       dict_keys fm @ [t \<leftarrow> map fst cts. t \<in> set (map fst post) \<and> t \<notin> set (dict_keys fm)]"
proof (induction cts arbitrary: fm)
  case Nil
  then show ?case by simp
next
  case (Cons ct cts)
  obtain t terms where ct: "ct = (t, terms)" by (cases ct)
  from Cons.prems(1) have d: "distinct (map fst cts)" and t: "t \<notin> set (map fst cts)"
    by (simp_all add: ct)
  show ?case
  proof (cases "dict_get post t")
    case None
    then have "t \<notin> set (map fst post)" using dict_get_in_keys [of post t] by simp
    moreover from Cons.prems(2) None have "add_custom_taxonomies cts post fm = Inr fm'"
      by (simp add: ct)
    ultimately show ?thesis using Cons.IH [OF d] by (simp add: ct)
  next
    case (Some v)
    then have inpost: "t \<in> set (map fst post)" using dict_get_in_keys [of post t] by simp
    from Cons.prems(2) Some obtain ids where
      r: "add_custom_taxonomies cts post (dict_set fm t (names_json (map_term_ids_to_names ids terms))) = Inr fm'"
      by (auto simp: ct split: sum.splits)
    note IH = Cons.IH [OF d r]
    show ?thesis
    proof (cases "t \<in> set (dict_keys fm)")
      case True
      then show ?thesis using IH by (simp add: dict_keys_dict_set ct)
    next
      case False
      have "[x \<leftarrow> map fst cts. x \<in> set (map fst post) \<and> x \<notin> set (dict_keys fm @ [t])]
            = [x \<leftarrow> map fst cts. x \<in> set (map fst post) \<and> x \<notin> set (dict_keys fm)]"
        using t by (intro filter_cong) auto
      with False inpost show ?thesis using IH by (simp add: dict_keys_dict_set ct)
    qed
  qed
qed

lemma dict_keys_save_as_markdown:
  "''title'' \<in> set (dict_keys fm) \<Longrightarrow> dict_keys (fst (save_as_markdown fm c)) = dict_keys fm"
  by (simp add: save_as_markdown_def Let_def dict_keys_dict_set)

lemma dict_keys_with_acf:
  "''acf'' \<notin> set (dict_keys fm) \<Longrightarrow>
     dict_keys (with_acf post fm) =
       dict_keys fm @ (if (case dict_get post ''acf'' of None \<Rightarrow> False | Some a \<Rightarrow> truthy a)
                       then [''acf''] else [])"
  by (simp add: with_acf_def dict_keys_dict_set split: option.splits)

lemma map_fst_filtered_metadata:
  "map fst (filtered_metadata post) =
     [k \<leftarrow> map fst post. k \<notin> set [''content'', ''excerpt'', ''guid'', ''_links'', ''_embedded'', ''acf'']]"
  unfolding filtered_metadata_def by (induction post) auto

lemma convert_post_to_md_stages:
  assumes "convert_post_to_md handle domain_url post authors categories tags custom_taxonomies
             post_type use_markdown = Inr (frontmatter, content)"
  shows "\<exists>fm0 fm1 c.
           dict_keys fm0 = [''title'', ''date'', ''author'', ''excerpt'', ''custom_url'', ''type'',
                            ''categories'', ''tags'']
         \<and> add_custom_taxonomies custom_taxonomies post (with_acf post fm0) = Inr fm1
         \<and> frontmatter = fst (save_as_markdown (dict_update fm1 (filtered_metadata post)) c)"
proof -
  from assms obtain title author_name excerpt category_ids tag_ids fm1 c where
    a: "add_custom_taxonomies custom_taxonomies post
          (with_acf post
             (dict_set
                (dict_set
                   [(''title'', title),
                    (''date'', case dict_get post ''date'' of None \<Rightarrow> JStr [] | Some v \<Rightarrow> v),
                    (''author'', JStr author_name),
                    (''excerpt'', JStr (strip (handle excerpt))),
                    (''custom_url'', case dict_get post ''slug'' of None \<Rightarrow> JStr [] | Some v \<Rightarrow> v),
                    (''type'', JStr post_type)]
                   ''categories'' (names_json (map_term_ids_to_names category_ids categories)))
                ''tags'' (names_json (map_term_ids_to_names tag_ids tags)))) = Inr fm1" and
    b: "save_as_markdown (dict_update fm1 (filtered_metadata post)) c = (frontmatter, content)"
    unfolding convert_post_to_md_def bind_result_def
    by (auto split: sum.splits)
  have k: "dict_keys (dict_set
                (dict_set
                   [(''title'', title),
                    (''date'', case dict_get post ''date'' of None \<Rightarrow> JStr [] | Some v \<Rightarrow> v),
                    (''author'', JStr author_name),
                    (''excerpt'', JStr (strip (handle excerpt))),
                    (''custom_url'', case dict_get post ''slug'' of None \<Rightarrow> JStr [] | Some v \<Rightarrow> v),
                    (''type'', JStr post_type)]
                   ''categories'' (names_json (map_term_ids_to_names category_ids categories)))
                ''tags'' (names_json (map_term_ids_to_names tag_ids tags)))
        = [''title'', ''date'', ''author'', ''excerpt'', ''custom_url'', ''type'', ''categories'', ''tags'']"
    by (simp add: dict_keys_def)
  from b have "frontmatter = fst (save_as_markdown (dict_update fm1 (filtered_metadata post)) c)"
    by simp
  with a k show ?thesis by blast
qed

text \<open>
  C7 (as the code has it). When a post is converted, the keys of the emitted frontmatter
  begin with title, date, author, excerpt, custom_url, type, categories, tags, in this
  order, whatever the order of the keys of the post. Then comes \<^verbatim>\<open>acf\<close>, when the post has
  ACF data that is true; then the custom taxonomies that are fields of the post, in the
  order of the taxonomy table; then the remaining fields of the post, in the order of the
  post, except \<^verbatim>\<open>content\<close>, \<^verbatim>\<open>excerpt\<close>, \<^verbatim>\<open>guid\<close>, \<^verbatim>\<open>_links\<close>, \<^verbatim>\<open>_embedded\<close>, \<^verbatim>\<open>acf\<close> and the keys that
  are already there.
\<close>

theorem frontmatter_key_order:
  assumes conv: "convert_post_to_md handle domain_url post authors categories tags custom_taxonomies
                   post_type use_markdown = Inr (frontmatter, content)"
    and dp: "distinct (map fst post)"
    and dt: "distinct (map fst custom_taxonomies)"
  shows "take 8 (dict_keys frontmatter) =
           [''title'', ''date'', ''author'', ''excerpt'', ''custom_url'', ''type'', ''categories'', ''tags'']
         \<and> dict_keys frontmatter =
           keys_before_taxonomies post
           @ [t \<leftarrow> map fst custom_taxonomies.
                t \<in> set (map fst post) \<and> t \<notin> set (keys_before_taxonomies post)]
           @ [k \<leftarrow> map fst post.
                k \<notin> set [''content'', ''excerpt'', ''guid'', ''_links'', ''_embedded'', ''acf'']
                \<and> k \<notin> set (keys_before_taxonomies post)
                \<and> k \<notin> set (map fst custom_taxonomies)]"
proof -
  let ?first = "keys_before_taxonomies post"
  let ?tax = "[t \<leftarrow> map fst custom_taxonomies. t \<in> set (map fst post) \<and> t \<notin> set ?first]"
  let ?excl = "[''content'', ''excerpt'', ''guid'', ''_links'', ''_embedded'', ''acf'']"
  from convert_post_to_md_stages [OF conv] obtain fm0 fm1 c where
    k0: "dict_keys fm0 = [''title'', ''date'', ''author'', ''excerpt'', ''custom_url'', ''type'',
                          ''categories'', ''tags'']" and
    a: "add_custom_taxonomies custom_taxonomies post (with_acf post fm0) = Inr fm1" and
    f: "frontmatter = fst (save_as_markdown (dict_update fm1 (filtered_metadata post)) c)"
    by blast
  have k1: "dict_keys (with_acf post fm0) = ?first"
    by (subst dict_keys_with_acf) (simp_all add: k0 keys_before_taxonomies_def)
  have k2: "dict_keys fm1 = ?first @ ?tax"
    using dict_keys_add_custom_taxonomies [OF dt a] by (simp only: k1)
  have dm: "distinct (map fst (filtered_metadata post))"
    using dp by (simp add: map_fst_filtered_metadata)
  have k3: "dict_keys (dict_update fm1 (filtered_metadata post)) =
              (?first @ ?tax) @ [k \<leftarrow> map fst (filtered_metadata post). k \<notin> set (?first @ ?tax)]"
    using dict_keys_dict_update [OF dm, of fm1] by (simp only: k2)
  have t: "''title'' \<in> set (dict_keys (dict_update fm1 (filtered_metadata post)))"
    by (simp only: k3) (simp add: keys_before_taxonomies_def)
  have rest: "[k \<leftarrow> map fst (filtered_metadata post). k \<notin> set (?first @ ?tax)]
            = [k \<leftarrow> map fst post. k \<notin> set ?excl \<and> k \<notin> set ?first
                                    \<and> k \<notin> set (map fst custom_taxonomies)]"
    unfolding map_fst_filtered_metadata filter_filter
    by (rule filter_cong) auto
  have keys: "dict_keys frontmatter = ?first @ ?tax
                @ [k \<leftarrow> map fst post. k \<notin> set ?excl \<and> k \<notin> set ?first
                                       \<and> k \<notin> set (map fst custom_taxonomies)]"
    unfolding f dict_keys_save_as_markdown [OF t] k3 rest by simp
  have "take 8 (?first @ ?tax
                @ [k \<leftarrow> map fst post. k \<notin> set ?excl \<and> k \<notin> set ?first
                                       \<and> k \<notin> set (map fst custom_taxonomies)])
        = [''title'', ''date'', ''author'', ''excerpt'', ''custom_url'', ''type'', ''categories'', ''tags'']"
    by (simp add: keys_before_taxonomies_def)
  with keys show ?thesis by simp
qed

theorem frontmatter_key_order_witness:
  "convert_post_to_md tag_handle ''https://wp.test''
     [(''views'', JInt 3), (''date'', JStr ''2024-01-01''), (''title'', JObj [(''rendered'', JStr ''Hi'')])]
     [] [] [] [] ''page'' True
   = Inr ([(''title'', JStr ''Hi''), (''date'', JStr ''2024-01-01''), (''author'', JStr ''Unknown''),
           (''excerpt'', JStr ''[md]''), (''custom_url'', JStr []), (''type'', JStr ''page''),
           (''categories'', JList []), (''tags'', JList []), (''views'', JInt 3)],
          ''[md]\<newline>\<newline>'') \<and>
   distinct (map fst [(''views'', JInt 3), (''date'', JStr ''2024-01-01''),
                      (''title'', JObj [(''rendered'', JStr ''Hi'')])]) \<and>
   take 8 (dict_keys [(''title'', JStr ''Hi''), (''date'', JStr ''2024-01-01''), (''author'', JStr ''Unknown''),
           (''excerpt'', JStr ''[md]''), (''custom_url'', JStr []), (''type'', JStr ''page''),
           (''categories'', JList []), (''tags'', JList []), (''views'', JInt 3)])
     = [''title'', ''date'', ''author'', ''excerpt'', ''custom_url'', ''type'', ''categories'', ''tags'']"
proof -
  let ?post = "[(''views'', JInt 3), (''date'', JStr ''2024-01-01''),
                (''title'', JObj [(''rendered'', JStr ''Hi'')])]"
  let ?fm = "[(''title'', JStr ''Hi''), (''date'', JStr ''2024-01-01''), (''author'', JStr ''Unknown''),
           (''excerpt'', JStr ''[md]''), (''custom_url'', JStr []), (''type'', JStr ''page''),
           (''categories'', JList []), (''tags'', JList []), (''views'', JInt 3)]"
  have conv: "convert_post_to_md tag_handle ''https://wp.test'' ?post [] [] [] [] ''page'' True
                = Inr (?fm, ''[md]\<newline>\<newline>'')"
    by code_simp
  have dp: "distinct (map fst ?post)" by simp
  have dt: "distinct (map fst ([] :: (string \<times> term_table) list))" by simp
  from frontmatter_key_order [OF conv dp dt]
  have "take 8 (dict_keys ?fm)
     = [''title'', ''date'', ''author'', ''excerpt'', ''custom_url'', ''type'', ''categories'', ''tags'']"
    by (rule conjunct1)
  with conv dp show ?thesis by (intro conjI)
qed

text \<open>
  C7 as stated fails on what follows the first eight keys: for a post with ACF data and
  a field of the custom taxonomy \<^verbatim>\<open>genre\<close>, the ninth key is \<^verbatim>\<open>acf\<close>, not the custom taxonomy.
\<close>

theorem acf_before_custom_taxonomy_counterexample:
  "convert_post_to_md tag_handle ''https://wp.test''
     [(''date'', JStr ''2024-01-01''), (''title'', JObj [(''rendered'', JStr ''Hi'')]),
      (''genre'', JList [JInt 3]), (''acf'', JObj [(''k'', JInt 1)]), (''id'', JInt 1)]
     [] [] [] [(''genre'', [(3, \<lparr>term_id = 3, name = ''Jazz''\<rparr>)])] ''post'' True
   = Inr ([(''title'', JStr ''Hi''), (''date'', JStr ''2024-01-01''), (''author'', JStr ''Unknown''),
           (''excerpt'', JStr ''[md]''), (''custom_url'', JStr []), (''type'', JStr ''post''),
           (''categories'', JList []), (''tags'', JList []),
           (''acf'', JObj [(''k'', JInt 1)]), (''genre'', JList [JInt 3]), (''id'', JInt 1)],
          ''[md]\<newline>\<newline>'') \<and>
   dict_keys [(''title'', JStr ''Hi''), (''date'', JStr ''2024-01-01''), (''author'', JStr ''Unknown''),
           (''excerpt'', JStr ''[md]''), (''custom_url'', JStr []), (''type'', JStr ''post''),
           (''categories'', JList []), (''tags'', JList []),
           (''acf'', JObj [(''k'', JInt 1)]), (''genre'', JList [JInt 3]), (''id'', JInt 1)] ! 8
     \<noteq> ''genre''"
  by code_simp

text \<open>
  C1. The claim is that title, date, author, slug, categories and tags are kept out of
  the catch-all, so that the resolved author name and the lists of category and tag names
  stay in the frontmatter. The code keeps only \<^verbatim>\<open>content\<close>, \<^verbatim>\<open>excerpt\<close>, \<^verbatim>\<open>guid\<close>, \<^verbatim>\<open>_links\<close>,
  \<^verbatim>\<open>_embedded\<close> and \<^verbatim>\<open>acf\<close> out. For the post below, with author 7 (Alice), category 5 (News)
  and tag 9 (Tips), the emitted frontmatter has the raw ids 7, \<open>[5]\<close> and \<open>[9]\<close> where the
  names were, and the slug a second time under \<^verbatim>\<open>slug\<close>.
\<close>

theorem resolved_names_overwritten:
  "convert_post_to_md tag_handle ''https://wp.test''
     [(''id'', JInt 1), (''date'', JStr ''2024-01-01''), (''slug'', JStr ''hello''),
      (''title'', JObj [(''rendered'', JStr ''Hi'')]),
      (''content'', JObj [(''rendered'', JStr ''<p>x</p>'')]),
      (''excerpt'', JObj [(''rendered'', JStr ''e'')]),
      (''author'', JInt 7), (''categories'', JList [JInt 5]), (''tags'', JList [JInt 9])]
     [(7, ''Alice'')] [(5, \<lparr>term_id = 5, name = ''News''\<rparr>)] [(9, \<lparr>term_id = 9, name = ''Tips''\<rparr>)]
     [] ''post'' True
   = Inr ([(''title'', JStr ''Hi''), (''date'', JStr ''2024-01-01''), (''author'', JInt 7),
           (''excerpt'', JStr ''[md]e''), (''custom_url'', JStr ''hello''), (''type'', JStr ''post''),
           (''categories'', JList [JInt 5]), (''tags'', JList [JInt 9]),
           (''id'', JInt 1), (''slug'', JStr ''hello'')],
          ''[md]<p>x</p>\<newline>\<newline>'')"
  by code_simp

subsection \<open>Custom taxonomies\<close>

text \<open>
  C8. The claim is that a taxonomy whose terms cannot be fetched has no entry in the
  table. The fetcher catches the \<^verbatim>\<open>HTTPError\<close> itself and returns what it has, so the
  \<^verbatim>\<open>except\<close> of the loop never runs: for the server below, where the request for the terms
  of \<^verbatim>\<open>genre\<close> fails, \<^verbatim>\<open>genre\<close> is in the table, with the empty mapping. The terms of the
  other taxonomy, \<^verbatim>\<open>topic\<close>, are fetched.
\<close>

theorem failed_taxonomy_kept_empty: "fetch_custom_taxonomies taxonomy_server ''https://wp.test''
         = Some (Inr [(''genre'', []), (''topic'', [(3, \<lparr>term_id = 3, name = ''Jazz''\<rparr>)])])"
  by code_simp

end
